theory Spec2Isabelle
  imports Complex_Main "HOL-Library.Code_Target_Nat"
begin

section \<open>The output matrix\<close>

text \<open>
  \<^verbatim>\<open>DictionaryEncoding\<close> (dictionary_encoding.hpp) is a template over \<^verbatim>\<open>MatType\<close> and uses
  two members of the matrix: \<^verbatim>\<open>output.zeros(datasetSize, colSize)\<close> and
  \<^verbatim>\<open>output.at(row, col) = ele\<close>. The matrix is an Armadillo matrix; the model below is the
  dense one (\<^verbatim>\<open>arma::Mat<eT>\<close>), as Armadillo documents it: the dimensions \<^verbatim>\<open>n_rows\<close> and
  \<^verbatim>\<open>n_cols\<close>, and the elements in one block of memory \<^verbatim>\<open>mem\<close> in column-major order, so
  that element \<open>(row, col)\<close> is \<^verbatim>\<open>mem[row + col * n_rows]\<close>.

  Sizes and indices (\<^verbatim>\<open>size_t\<close>) are natural numbers: the policy does no arithmetic on them,
  and for coordinates inside the matrix the linear index stays below the number of
  elements. Allocation is taken to succeed. The type \<open>'a\<close> of the elements holds the numbers
  that the elements of the matrix denote (\<open>real\<close> for a matrix of \<^verbatim>\<open>double\<close>).
\<close>

record 'a Mat =
  n_rows :: nat
  n_cols :: nat
  mem :: "'a list"

text \<open>Every matrix that Armadillo hands out owns exactly \<open>n_rows * n_cols\<close> elements.\<close>

definition wf_Mat :: "'a Mat \<Rightarrow> bool" where
  "wf_Mat m \<longleftrightarrow> length (mem m) = n_rows m * n_cols m"

text \<open>\<^verbatim>\<open>m.zeros(in_rows, in_cols)\<close>: resize to the given dimensions, every element zero.\<close>

definition zeros :: "'a::zero Mat \<Rightarrow> nat \<Rightarrow> nat \<Rightarrow> 'a Mat" where
  "zeros m in_rows in_cols =
     m\<lparr>n_rows := in_rows, n_cols := in_cols, mem := replicate (in_rows * in_cols) 0\<rparr>"

text \<open>
  \<^verbatim>\<open>m.at(in_row, in_col) = v\<close>: the accessor \<^verbatim>\<open>at\<close> checks no bounds and yields a reference to
  \<^verbatim>\<open>mem[in_row + in_col * n_rows]\<close>. Inside the block of memory the assignment overwrites that
  one element, whichever cell it belongs to; outside of it the behaviour of the C++ program
  is undefined, which is the value \<open>None\<close> here. The index is computed in the natural
  numbers, without the wrap-around of \<^verbatim>\<open>uword\<close>, which only coordinates far outside the
  matrix reach.
\<close>

definition at_assign :: "'a Mat \<Rightarrow> nat \<Rightarrow> nat \<Rightarrow> 'a \<Rightarrow> 'a Mat option" where
  "at_assign m in_row in_col v =
     (let i = in_row + in_col * n_rows m
      in if i < length (mem m) then Some (m\<lparr>mem := (mem m)[i := v]\<rparr>) else None)"

text \<open>
  Reading cell \<open>(row, col)\<close> the way the checked accessor \<^verbatim>\<open>m(row, col)\<close> does: only
  coordinates inside the matrix name a cell.
\<close>

definition cell :: "'a Mat \<Rightarrow> nat \<Rightarrow> nat \<Rightarrow> 'a option" where
  "cell m row col =
     (if row < n_rows m \<and> col < n_cols m then Some (mem m ! (row + col * n_rows m)) else None)"

text \<open>Row \<open>row\<close> of the matrix, read from left to right.\<close>

definition row_of :: "'a Mat \<Rightarrow> nat \<Rightarrow> 'a list" where
  "row_of m row = map (\<lambda>col. mem m ! (row + col * n_rows m)) [0 ..< n_cols m]"


section \<open>The dictionary encoding policy\<close>

text \<open>
  \<^verbatim>\<open>
  template<typename MatType>
  static void InitMatrix(MatType& output, size_t datasetSize, size_t colSize,
                         size_t /*mappingsSize*/)
  {
      output.zeros(datasetSize, colSize);
  }
  \<close>
\<close>

definition InitMatrix :: "'a::zero Mat \<Rightarrow> nat \<Rightarrow> nat \<Rightarrow> nat \<Rightarrow> 'a Mat" where
  "InitMatrix output datasetSize colSize mappingsSize = zeros output datasetSize colSize"

text \<open>
  \<^verbatim>\<open>
  template<typename MatType>
  static void Encode(size_t ele, MatType& output, size_t row, size_t col)
  {
    output.at(row, col) = ele;
  }
  \<close>
\<close>

definition Encode :: "nat \<Rightarrow> 'a::semiring_1 Mat \<Rightarrow> nat \<Rightarrow> nat \<Rightarrow> 'a Mat option" where
  "Encode ele output row col = at_assign output row col (of_nat ele)"

text \<open>
  The assignment converts \<open>ele\<close> from \<^verbatim>\<open>size_t\<close> to the element type of the matrix.
  \<open>Encode\<close> above stores the number \<open>ele\<close> as it is, which is what the assignment does for
  every \<open>ele\<close> that the element type represents. The conversion itself belongs to the
  element type, which is the template's: a floating-point type rounds an integer that
  does not fit its significand (24 bits for \<^verbatim>\<open>float\<close>, 53 bits for \<^verbatim>\<open>double\<close>) to the nearest
  value it has, to the even one of two nearest; an integer type of \<open>w\<close> bits keeps the
  value modulo \<open>2 ^ w\<close>, read in two's complement when the type is signed.
\<close>

text \<open>The number of binary digits of \<open>n\<close>.\<close>

fun bits :: "nat \<Rightarrow> nat" where
  "bits n = (if n = 0 then 0 else Suc (bits (n div 2)))"

declare bits.simps [simp del]

text \<open>Rounding \<open>n\<close> to \<open>p\<close> significant binary digits, to nearest, ties to even.\<close>

definition round_to_nearest_even :: "nat \<Rightarrow> nat \<Rightarrow> nat" where
  "round_to_nearest_even p n =
     (if bits n \<le> p then n
      else
        let e = bits n - p; q = n div 2 ^ e; r = n mod 2 ^ e; half = 2 ^ (e - 1)
        in (if r < half \<or> (r = half \<and> even q) then q else q + 1) * 2 ^ e)"

text \<open>The element types of an Armadillo matrix; an integer type carries its width.\<close>

datatype elem_type = Float32 | Float64 | Unsigned nat | Signed nat

text \<open>The number that an element of type \<open>eT\<close> holds after \<^verbatim>\<open>eT(ele)\<close>.\<close>

fun size_t_to_elem :: "elem_type \<Rightarrow> nat \<Rightarrow> int" where
  "size_t_to_elem Float32 ele = int (round_to_nearest_even 24 ele)"
| "size_t_to_elem Float64 ele = int (round_to_nearest_even 53 ele)"
| "size_t_to_elem (Unsigned w) ele = int (ele mod 2 ^ w)"
| "size_t_to_elem (Signed w) ele =
     (let m = ele mod 2 ^ w in if m < 2 ^ (w - 1) then int m else int m - 2 ^ w)"

text \<open>
  The indices that the element type represents: for a floating-point type the integers
  whose binary digits below the significand are all zero, for an integer type the ones
  below its upper limit.
\<close>

fun representable :: "elem_type \<Rightarrow> nat \<Rightarrow> bool" where
  "representable Float32 ele \<longleftrightarrow> ele mod 2 ^ (bits ele - 24) = 0"
| "representable Float64 ele \<longleftrightarrow> ele mod 2 ^ (bits ele - 53) = 0"
| "representable (Unsigned w) ele \<longleftrightarrow> ele < 2 ^ w"
| "representable (Signed w) ele \<longleftrightarrow> ele < 2 ^ (w - 1)"

text \<open>
  \<^verbatim>\<open>Encode\<close> on a matrix with elements of type \<open>eT\<close>: the same assignment, with the
  conversion of that type.
\<close>

definition Encode_elem ::
  "elem_type \<Rightarrow> nat \<Rightarrow> 'a::ring_1 Mat \<Rightarrow> nat \<Rightarrow> nat \<Rightarrow> 'a Mat option" where
  "Encode_elem eT ele output row col = at_assign output row col (of_int (size_t_to_elem eT ele))"

text \<open>
  A sequence of calls \<^verbatim>\<open>Encode(ele, output, row, col)\<close> on the same matrix, in order; each
  call is given as \<open>(ele, row, col)\<close>.
\<close>

fun Encode_calls :: "(nat \<times> nat \<times> nat) list \<Rightarrow> 'a::semiring_1 Mat \<Rightarrow> 'a Mat option" where
  "Encode_calls [] output = Some output"
| "Encode_calls ((ele, row, col) # calls) output =
     (case Encode ele output row col of
        None \<Rightarrow> None
      | Some output' \<Rightarrow> Encode_calls calls output')"

text \<open>
  \<^verbatim>\<open>
  template<>
  struct PolicyTraits<DictionaryEncoding> {
    static const bool isSinglePass = true;
    static const bool outputWithNoPadding = true;
    static const bool isMultiPass = false;
  };
  \<close>
\<close>

record PolicyTraits =
  isSinglePass :: bool
  outputWithNoPadding :: bool
  isMultiPass :: bool

definition PolicyTraits_DictionaryEncoding :: PolicyTraits where
  "PolicyTraits_DictionaryEncoding =
     \<lparr>isSinglePass = True, outputWithNoPadding = True, isMultiPass = False\<rparr>"


section \<open>The dictionary and the encoding driver\<close>

text \<open>
  The dictionary and the driver that calls the policy are not part of
  dictionary_encoding.hpp. The definitions of this section follow the specification
  (sections 3, 4.1, 4.4 and 7).
\<close>

text \<open>
  Modelled from the spec: the error kinds of section 7; the code that raises them is
  missing.
\<close>

datatype error = InvalidConfiguration | NotFoundError | UnsupportedPolicyCombination

text \<open>
  Modelled from the spec: the Dictionary of section 3, missing from the source, ``an
  ordered mapping from Token to non-negative integer index, index values assigned in
  first-seen order starting at a policy-defined base''. The entries are kept in the
  order in which the tokens were first seen.
\<close>

record 't Dictionary =
  base :: nat
  entries :: "('t \<times> nat) list"

text \<open>
  Modelled from the spec: the Dictionary is ``created empty at the start of an encoding
  session''; its constructor is missing from the source.
\<close>

definition Dictionary_empty :: "nat \<Rightarrow> 't Dictionary" where
  "Dictionary_empty b = \<lparr>base = b, entries = []\<rparr>"

text \<open>
  Modelled from the spec: the base of the dictionary-style policy, which the source does
  not define; the scenario of section 8 numbers the first token 0.
\<close>

definition DictionaryEncoding_base :: nat where
  "DictionaryEncoding_base = 0"

text \<open>
  Modelled from the spec: \<^verbatim>\<open>Size() -> count\<close> of distinct tokens seen so far (section 4.1),
  missing from the source.
\<close>

definition Size :: "'t Dictionary \<Rightarrow> nat" where
  "Size d = length (entries d)"

text \<open>
  Modelled from the spec: \<^verbatim>\<open>GetOrAssign(token) -> index\<close> (section 4.1), missing from the
  source: ``returns the existing index if token was seen before in this session, otherwise
  assigns it the next contiguous index and returns that''.
\<close>

definition GetOrAssign :: "'t Dictionary \<Rightarrow> 't \<Rightarrow> nat \<times> 't Dictionary" where
  "GetOrAssign d token =
     (case map_of (entries d) token of
        Some index \<Rightarrow> (index, d)
      | None \<Rightarrow>
          (let index = base d + Size d
           in (index, d\<lparr>entries := entries d @ [(token, index)]\<rparr>)))"

text \<open>
  Modelled from the spec: \<^verbatim>\<open>TokenAt(index) -> token\<close> (section 4.1), missing from the source:
  the reverse lookup, which ``fails with NotFoundError if index was never assigned''. It
  searches the entries for the index.
\<close>

definition TokenAt :: "'t Dictionary \<Rightarrow> nat \<Rightarrow> error + 't" where
  "TokenAt d index =
     (case map_of (map (\<lambda>(token, i). (i, token)) (entries d)) index of
        Some token \<Rightarrow> Inr token
      | None \<Rightarrow> Inl NotFoundError)"

text \<open>
  Modelled from the spec: the calls of \<^verbatim>\<open>GetOrAssign\<close> of one encoding session, which the
  missing driver makes token by token (section 4.4, step 4); the result is the list of
  the indices returned, in order, and the dictionary at the end of the session.
\<close>

fun GetOrAssign_seq :: "'t Dictionary \<Rightarrow> 't list \<Rightarrow> nat list \<times> 't Dictionary" where
  "GetOrAssign_seq d [] = ([], d)"
| "GetOrAssign_seq d (token # tokens) =
     (case GetOrAssign d token of
        (index, d') \<Rightarrow>
          (case GetOrAssign_seq d' tokens of
             (indices, d'') \<Rightarrow> (index # indices, d'')))"

text \<open>
  Modelled from the spec: step 1 of the driver's protocol (section 4.4), missing from the
  source: ``the maximum sequence length across the batch''.
\<close>

definition max_length :: "'t list list \<Rightarrow> nat" where
  "max_length input = foldr (\<lambda>tokens n. max (length tokens) n) input 0"

text \<open>
  Modelled from the spec: step 4 of the driver's protocol (section 4.4), missing from the
  source, for one sequence: ``for each token call Dictionary.GetOrAssign then
  Policy.Encode at the token's (row, col) position'', \<open>col\<close> being the position of the token
  within the sequence. A write outside the matrix is the insufficient space of
  \<^verbatim>\<open>InvalidConfiguration\<close> (section 7).
\<close>

fun EncodeTokens ::
  "'t list \<Rightarrow> nat \<Rightarrow> nat \<Rightarrow> 'a::semiring_1 Mat \<times> 't Dictionary \<Rightarrow> error + 'a Mat \<times> 't Dictionary"
where
  "EncodeTokens [] row col (output, d) = Inr (output, d)"
| "EncodeTokens (token # tokens) row col (output, d) =
     (case GetOrAssign d token of
        (index, d') \<Rightarrow>
          (case Encode index output row col of
             None \<Rightarrow> Inl InvalidConfiguration
           | Some output' \<Rightarrow> EncodeTokens tokens row (Suc col) (output', d')))"

text \<open>
  Modelled from the spec: step 4 of the driver's protocol (section 4.4), missing from the
  source, for the batch: ``traverse every sequence, every token in order'', \<open>row\<close> being
  the index of the sequence in the batch.
\<close>

fun EncodeSequences ::
  "'t list list \<Rightarrow> nat \<Rightarrow> 'a::semiring_1 Mat \<times> 't Dictionary \<Rightarrow> error + 'a Mat \<times> 't Dictionary"
where
  "EncodeSequences [] row s = Inr s"
| "EncodeSequences (tokens # input) row s =
     (case EncodeTokens tokens row 0 s of
        Inl e \<Rightarrow> Inl e
      | Inr s' \<Rightarrow> EncodeSequences input (Suc row) s')"

text \<open>
  Modelled from the spec: the Encoding Driver (section 4.4), missing from the source, with
  \<^verbatim>\<open>DictionaryEncoding\<close> as its policy. Traits that are both or neither single-pass and
  multi-pass are an \<^verbatim>\<open>UnsupportedPolicyCombination\<close>; \<open>colSize\<close> is the maximum sequence
  length or the width \<open>width\<close> that the caller supplies, and a width below the longest
  sequence is an \<^verbatim>\<open>InvalidConfiguration\<close>; a multi-pass policy has the dictionary populated
  before the matrix is allocated; \<^verbatim>\<open>InitMatrix\<close> is called with the size of the dictionary at
  that point; then every token is encoded. The driver returns the matrix and the
  dictionary.
\<close>

definition StringEncoding_Encode ::
  "'t Dictionary \<Rightarrow> nat option \<Rightarrow> 't list list \<Rightarrow> 'a::semiring_1 Mat
     \<Rightarrow> error + 'a Mat \<times> 't Dictionary"
where
  "StringEncoding_Encode d width input output =
     (if isSinglePass PolicyTraits_DictionaryEncoding = isMultiPass PolicyTraits_DictionaryEncoding
      then Inl UnsupportedPolicyCombination
      else
        let colSize = (case width of None \<Rightarrow> max_length input | Some w \<Rightarrow> w)
        in if colSize < max_length input then Inl InvalidConfiguration
           else
             let d0 = (if isMultiPass PolicyTraits_DictionaryEncoding
                       then snd (GetOrAssign_seq d (concat input)) else d)
             in EncodeSequences input 0 (InitMatrix output (length input) colSize (Size d0), d0))"

text \<open>
  The invariant of the Dictionary that section 3 states: the indices are contiguous from
  the base, in the order of the entries, and no token has two entries.
\<close>

definition Dictionary_inv :: "'t Dictionary \<Rightarrow> bool" where
  "Dictionary_inv d \<longleftrightarrow>
     map snd (entries d) = [base d ..< base d + length (entries d)]
     \<and> distinct (map fst (entries d))"


section \<open>Facts about the matrix\<close>

lemma in_bounds_index:
  assumes "wf_Mat m" "row < n_rows m" "col < n_cols m"
  shows "row + col * n_rows m < length (mem m)"
proof -
  have "row + col * n_rows m < n_rows m + col * n_rows m"
    using assms(2) by simp
  also have "\<dots> = Suc col * n_rows m"
    by simp
  also have "\<dots> \<le> n_cols m * n_rows m"
    using assms(3) by (intro mult_le_mono1) simp
  finally show ?thesis
    using assms(1) by (simp add: wf_Mat_def mult.commute)
qed

lemma index_inj:
  fixes n :: nat
  assumes "r < n" "r' < n" "r + c * n = r' + c' * n"
  shows "r = r' \<and> c = c'"
proof -
  have "(r + c * n) mod n = r" "(r' + c' * n) mod n = r'"
    using assms(1,2) by simp_all
  then have rr: "r = r'"
    using assms(3) by simp
  have "(r + c * n) div n = c" "(r' + c' * n) div n = c'"
    using assms(1,2) by simp_all
  then have "c = c'"
    using assms(3) by simp
  with rr show ?thesis by simp
qed

lemma wf_Mat_zeros: "wf_Mat (zeros m r c)"
  by (simp add: wf_Mat_def zeros_def)

lemma cell_zeros:
  assumes "row < r" "col < c"
  shows "cell (zeros m r c) row col = Some 0"
proof -
  have "wf_Mat (zeros m r c)" "row < n_rows (zeros m r c)" "col < n_cols (zeros m r c)"
    using assms by (simp_all add: wf_Mat_zeros) (simp_all add: zeros_def)
  from in_bounds_index [OF this] have "row + col * r < r * c"
    by (simp add: zeros_def)
  then show ?thesis
    using assms by (simp add: cell_def zeros_def)
qed

lemma Encode_in_bounds:
  assumes "wf_Mat output" "row < n_rows output" "col < n_cols output"
  shows "Encode ele output row col =
           Some (output\<lparr>mem := (mem output)[row + col * n_rows output := of_nat ele]\<rparr>)"
  using in_bounds_index [OF assms] by (simp add: Encode_def at_assign_def)

lemma Encode_dims:
  assumes "Encode ele output row col = Some output'"
  shows "n_rows output' = n_rows output \<and> n_cols output' = n_cols output
         \<and> length (mem output') = length (mem output)"
  using assms by (auto simp: Encode_def at_assign_def Let_def split: if_splits)

lemma Encode_wf:
  assumes "Encode ele output row col = Some output'" "wf_Mat output"
  shows "wf_Mat output'"
  using Encode_dims [OF assms(1)] assms(2) by (simp add: wf_Mat_def)

lemma Encode_cell_same:
  assumes "wf_Mat output" "row < n_rows output" "col < n_cols output"
    and "Encode ele output row col = Some output'"
  shows "cell output' row col = Some (of_nat ele)"
  using assms(4) in_bounds_index [OF assms(1-3)] assms(2,3)
  by (auto simp: Encode_in_bounds [OF assms(1-3)] cell_def)

lemma Encode_cell_other:
  assumes "wf_Mat output" "row < n_rows output" "col < n_cols output"
    and "Encode ele output row col = Some output'"
    and "(r, c) \<noteq> (row, col)"
  shows "cell output' r c = cell output r c"
proof (cases "r < n_rows output \<and> c < n_cols output")
  case True
  then have "r + c * n_rows output \<noteq> row + col * n_rows output"
    using index_inj [of r "n_rows output" row c col] assms(2,5) by auto
  then show ?thesis
    using assms(4) by (auto simp: Encode_in_bounds [OF assms(1-3)] cell_def)
next
  case False
  then show ?thesis
    using Encode_dims [OF assms(4)] by (auto simp: cell_def)
qed


lemma Encode_calls_in_bounds:
  assumes "wf_Mat m"
    and "\<forall>(ele, row, col) \<in> set calls. row < n_rows m \<and> col < n_cols m"
  shows "\<exists>m'. Encode_calls calls m = Some m' \<and> wf_Mat m'
           \<and> n_rows m' = n_rows m \<and> n_cols m' = n_cols m"
  using assms
proof (induction calls arbitrary: m)
  case Nil
  then show ?case by simp
next
  case (Cons call calls)
  obtain ele row col where call: "call = (ele, row, col)"
    by (cases call) auto
  from Cons.prems call have inb: "row < n_rows m" "col < n_cols m"
    by auto
  from Encode_in_bounds [OF Cons.prems(1) inb] obtain m1
    where m1: "Encode ele m row col = Some m1"
    by blast
  have dims: "n_rows m1 = n_rows m" "n_cols m1 = n_cols m"
    using Encode_dims [OF m1] by simp_all
  have "\<forall>(ele, row, col) \<in> set calls. row < n_rows m1 \<and> col < n_cols m1"
    using Cons.prems(2) dims by simp
  from Cons.IH [OF Encode_wf [OF m1 Cons.prems(1)] this] show ?case
    using call m1 dims by simp
qed

lemma Encode_calls_untouched:
  assumes "wf_Mat m"
    and "\<forall>(ele, row, col) \<in> set calls. row < n_rows m \<and> col < n_cols m \<and> (row, col) \<noteq> (r, c)"
    and "Encode_calls calls m = Some m'"
  shows "cell m' r c = cell m r c"
  using assms
proof (induction calls arbitrary: m)
  case Nil
  then show ?case by simp
next
  case (Cons call calls)
  obtain ele row col where call: "call = (ele, row, col)"
    by (cases call) auto
  from Cons.prems call have inb: "row < n_rows m" "col < n_cols m" and ne: "(r, c) \<noteq> (row, col)"
    by auto
  from Encode_in_bounds [OF Cons.prems(1) inb] obtain m1
    where m1: "Encode ele m row col = Some m1"
    by blast
  have dims: "n_rows m1 = n_rows m" "n_cols m1 = n_cols m"
    using Encode_dims [OF m1] by simp_all
  have rest: "\<forall>(ele, row, col) \<in> set calls. row < n_rows m1 \<and> col < n_cols m1 \<and> (row, col) \<noteq> (r, c)"
    using Cons.prems(2) dims by simp
  have "Encode_calls calls m1 = Some m'"
    using Cons.prems(3) call m1 by simp
  from Cons.IH [OF Encode_wf [OF m1 Cons.prems(1)] rest this]
  have "cell m' r c = cell m1 r c" .
  also have "\<dots> = cell m r c"
    by (rule Encode_cell_other [OF Cons.prems(1) inb m1 ne])
  finally show ?case .
qed

lemma InitMatrix_dims:
  "n_rows (InitMatrix output datasetSize colSize mappingsSize) = datasetSize"
  "n_cols (InitMatrix output datasetSize colSize mappingsSize) = colSize"
  by (simp_all add: InitMatrix_def zeros_def)

lemma wf_Mat_InitMatrix: "wf_Mat (InitMatrix output datasetSize colSize mappingsSize)"
  by (simp add: InitMatrix_def wf_Mat_zeros)

lemma cell_InitMatrix:
  "row < datasetSize \<Longrightarrow> col < colSize \<Longrightarrow>
     cell (InitMatrix output datasetSize colSize mappingsSize) row col = Some 0"
  by (simp add: InitMatrix_def cell_zeros)


section \<open>Facts about the conversion\<close>

lemma round_to_nearest_even_exact:
  assumes "n mod 2 ^ (bits n - p) = 0"
  shows "round_to_nearest_even p n = n"
proof (cases "bits n \<le> p")
  case True
  then show ?thesis by (simp add: round_to_nearest_even_def)
next
  case False
  define e where "e = bits n - p"
  have r: "n mod 2 ^ e = 0"
    using assms by (simp add: e_def)
  have "(0::nat) < 2 ^ (e - 1)"
    by simp
  moreover have "n div 2 ^ e * 2 ^ e = n"
    using r by (simp add: mod_eq_0_iff_dvd)
  ultimately show ?thesis
    using False r by (simp add: round_to_nearest_even_def Let_def e_def [symmetric])
qed

lemma size_t_to_elem_exact:
  assumes "representable eT ele"
  shows "size_t_to_elem eT ele = int ele"
proof (cases eT)
  case Float32
  with assms show ?thesis by (simp add: round_to_nearest_even_exact)
next
  case Float64
  with assms show ?thesis by (simp add: round_to_nearest_even_exact)
next
  case (Unsigned w)
  with assms show ?thesis by simp
next
  case (Signed w)
  with assms have small: "ele < 2 ^ (w - 1)"
    by simp
  have "(2::nat) ^ (w - 1) \<le> 2 ^ w"
    by (rule power_increasing) simp_all
  with small have "ele < 2 ^ w"
    by (rule less_le_trans)
  then have "ele mod 2 ^ w = ele"
    by simp
  with Signed small show ?thesis by (simp add: Let_def)
qed

lemma round_exact_conv:
  assumes "round_to_nearest_even p n = n"
  shows "n mod 2 ^ (bits n - p) = 0"
proof (cases "bits n \<le> p")
  case True
  then show ?thesis by simp
next
  case False
  define e where "e = bits n - p"
  from False have "2 ^ e dvd round_to_nearest_even p n"
    by (simp add: round_to_nearest_even_def Let_def e_def [symmetric])
  with assms have "2 ^ e dvd n"
    by simp
  then show ?thesis
    by (simp add: e_def [symmetric] mod_eq_0_iff_dvd)
qed

lemma size_t_to_elem_exact_iff:
  "size_t_to_elem eT ele = int ele \<longleftrightarrow> representable eT ele"
proof
  assume "representable eT ele"
  then show "size_t_to_elem eT ele = int ele"
    by (rule size_t_to_elem_exact)
next
  assume eq: "size_t_to_elem eT ele = int ele"
  show "representable eT ele"
  proof (cases eT)
    case Float32
    with eq show ?thesis by (simp add: round_exact_conv)
  next
    case Float64
    with eq show ?thesis by (simp add: round_exact_conv)
  next
    case (Unsigned w)
    with eq have "ele mod 2 ^ w = ele"
      by simp
    moreover have "ele mod 2 ^ w < 2 ^ w"
      by simp
    ultimately show ?thesis
      using Unsigned by simp
  next
    case (Signed w)
    let ?m = "ele mod 2 ^ w"
    have lt: "?m < 2 ^ w"
      by simp
    show ?thesis
    proof (cases "?m < 2 ^ (w - 1)")
      case True
      with eq Signed have "?m = ele"
        by (simp add: Let_def)
      with True Signed show ?thesis
        by simp
    next
      case False
      with eq Signed have "int ?m - 2 ^ w = int ele"
        by (simp add: Let_def)
      moreover have "int ?m < 2 ^ w"
        using lt by (metis of_nat_less_iff of_nat_numeral of_nat_power)
      ultimately show ?thesis
        by simp
    qed
  qed
qed

lemma Encode_elem_as_Encode:
  assumes "0 \<le> size_t_to_elem eT ele"
  shows "Encode_elem eT ele output row col = Encode (nat (size_t_to_elem eT ele)) output row col"
  using assms by (simp add: Encode_elem_def Encode_def)

lemma Encode_elem_representable:
  "representable eT ele \<Longrightarrow> Encode_elem eT ele output row col = Encode ele output row col"
  by (simp add: Encode_elem_def Encode_def size_t_to_elem_exact)


section \<open>Facts about the dictionary\<close>

lemma Dictionary_inv_empty: "Dictionary_inv (Dictionary_empty b)"
  by (simp add: Dictionary_inv_def Dictionary_empty_def)

lemma TokenAt_of_index:
  assumes "Dictionary_inv d" "map_of (entries d) token = Some index"
  shows "TokenAt d index = Inr token"
proof -
  let ?rev = "map (\<lambda>(token, i). (i, token)) (entries d)"
  have keys: "map fst ?rev = map snd (entries d)"
    by (induction "entries d") (auto simp: case_prod_beta)
  have "distinct (map snd (entries d))"
    using assms(1) by (simp add: Dictionary_inv_def)
  then have "distinct (map fst ?rev)"
    by (simp only: keys)
  moreover have "(index, token) \<in> set ?rev"
    using map_of_SomeD [OF assms(2)] by force
  ultimately have "map_of ?rev index = Some token"
    by (rule map_of_is_SomeI)
  then show ?thesis
    by (simp add: TokenAt_def)
qed

lemma TokenAt_NotFound:
  "TokenAt d index = Inl NotFoundError \<longleftrightarrow> index \<notin> snd ` set (entries d)"
proof -
  let ?rev = "map (\<lambda>(token, i). (i, token)) (entries d)"
  have "fst ` set ?rev = snd ` set (entries d)"
    by force
  then have "map_of ?rev index = None \<longleftrightarrow> index \<notin> snd ` set (entries d)"
    by (simp only: map_of_eq_None_iff)
  then show ?thesis
    by (auto simp: TokenAt_def split: option.splits)
qed

lemma GetOrAssign_step:
  assumes "Dictionary_inv d" "GetOrAssign d token = (index, d')"
  shows "Dictionary_inv d'"
    and "map_of (entries d') token = Some index"
    and "snd ` set (entries d') = insert index (snd ` set (entries d))"
    and "map_of (entries d) t = Some i \<Longrightarrow> map_of (entries d') t = Some i"
proof -
  show "Dictionary_inv d'"
  proof (cases "map_of (entries d) token")
    case None
    then have "token \<notin> fst ` set (entries d)"
      by (simp add: map_of_eq_None_iff)
    with assms None show ?thesis
      by (auto simp: GetOrAssign_def Dictionary_inv_def Size_def Let_def)
  next
    case (Some a)
    with assms show ?thesis
      by (auto simp: GetOrAssign_def)
  qed
  show "map_of (entries d') token = Some index"
    using assms(2) by (auto simp: GetOrAssign_def Let_def map_add_def split: option.splits)
  show "snd ` set (entries d') = insert index (snd ` set (entries d))"
  proof (cases "map_of (entries d) token")
    case None
    with assms(2) show ?thesis
      by (auto simp: GetOrAssign_def Let_def)
  next
    case (Some a)
    then have "(token, a) \<in> set (entries d)"
      by (rule map_of_SomeD)
    then have "a \<in> snd ` set (entries d)"
      by force
    with assms(2) Some show ?thesis
      by (auto simp: GetOrAssign_def)
  qed
  show "map_of (entries d') t = Some i" if "map_of (entries d) t = Some i"
    using assms(2) that
    by (auto simp: GetOrAssign_def Let_def map_add_def split: option.splits)
qed

lemma GetOrAssign_seq_props:
  assumes "Dictionary_inv d" "GetOrAssign_seq d tokens = (indices, d')"
  shows "Dictionary_inv d' \<and> length indices = length tokens
         \<and> (\<forall>k < length tokens. map_of (entries d') (tokens ! k) = Some (indices ! k))
         \<and> snd ` set (entries d') = snd ` set (entries d) \<union> set indices
         \<and> (\<forall>t i. map_of (entries d) t = Some i \<longrightarrow> map_of (entries d') t = Some i)"
  using assms
proof (induction tokens arbitrary: d indices d')
  case Nil
  then show ?case by auto
next
  case (Cons token tokens)
  obtain index d1 where step: "GetOrAssign d token = (index, d1)"
    by (cases "GetOrAssign d token")
  obtain rest d2 where seq: "GetOrAssign_seq d1 tokens = (rest, d2)"
    by (cases "GetOrAssign_seq d1 tokens")
  from Cons.prems(2) step seq have eq: "indices = index # rest" "d' = d2"
    by simp_all
  note s = GetOrAssign_step [OF Cons.prems(1) step]
  from Cons.IH [OF s(1) seq]
  have ih: "Dictionary_inv d2" "length rest = length tokens"
    "\<forall>k < length tokens. map_of (entries d2) (tokens ! k) = Some (rest ! k)"
    "snd ` set (entries d2) = snd ` set (entries d1) \<union> set rest"
    "\<forall>t i. map_of (entries d1) t = Some i \<longrightarrow> map_of (entries d2) t = Some i"
    by simp_all
  have "map_of (entries d2) ((token # tokens) ! k) = Some ((index # rest) ! k)"
    if "k < length (token # tokens)" for k
  proof (cases k)
    case 0
    then show ?thesis
      using s(2) ih(5) by simp
  next
    case (Suc j)
    then show ?thesis
      using that ih(3) by simp
  qed
  moreover have "\<forall>t i. map_of (entries d) t = Some i \<longrightarrow> map_of (entries d2) t = Some i"
    using s(4) ih(5) by blast
  ultimately show ?case
    using eq ih(1,2,4) s(3) by auto
qed

lemma cat_dog_result:
  "StringEncoding_Encode (Dictionary_empty 0) (Some 2) [[''cat'', ''dog''], [''dog'']] output
     = Inr (\<lparr>n_rows = 2, n_cols = 2, mem = [0, 1, 1, 0]\<rparr>,
            \<lparr>base = 0, entries = [(''cat'', 0), (''dog'', 1)]\<rparr>)"
  "StringEncoding_Encode (Dictionary_empty 0) None [[''cat'', ''dog''], [''dog'']] output
     = Inr (\<lparr>n_rows = 2, n_cols = 2, mem = [0, 1, 1, 0]\<rparr>,
            \<lparr>base = 0, entries = [(''cat'', 0), (''dog'', 1)]\<rparr>)"
  by (cases "output";
      simp add: StringEncoding_Encode_def PolicyTraits_DictionaryEncoding_def max_length_def
        InitMatrix_def zeros_def Dictionary_empty_def GetOrAssign_def Size_def Encode_def
        at_assign_def numeral_eq_Suc)+


section \<open>Facts about the driver\<close>

lemma length_le_max_length:
  "tokens \<in> set input \<Longrightarrow> length tokens \<le> max_length input"
  by (induction input) (auto simp: max_length_def)

lemma EncodeTokens_in_bounds:
  assumes "wf_Mat m" "row < n_rows m" "col + length tokens \<le> n_cols m"
  shows "\<exists>m' d'. EncodeTokens tokens row col (m, d) = Inr (m', d') \<and> wf_Mat m'
           \<and> n_rows m' = n_rows m \<and> n_cols m' = n_cols m"
  using assms
proof (induction tokens arbitrary: col m d)
  case Nil
  then show ?case by simp
next
  case (Cons token tokens)
  obtain index d1 where step: "GetOrAssign d token = (index, d1)"
    by (cases "GetOrAssign d token")
  have col: "col < n_cols m"
    using Cons.prems(3) by simp
  from Encode_in_bounds [OF Cons.prems(1,2) col] obtain m1
    where m1: "Encode index m row col = Some m1"
    by blast
  have dims: "n_rows m1 = n_rows m" "n_cols m1 = n_cols m"
    using Encode_dims [OF m1] by simp_all
  have "row < n_rows m1" "Suc col + length tokens \<le> n_cols m1"
    using Cons.prems(2,3) dims by simp_all
  from Cons.IH [OF Encode_wf [OF m1 Cons.prems(1)] this, of d1] show ?case
    using step m1 dims by simp
qed

lemma EncodeSequences_in_bounds:
  assumes "wf_Mat m" "row + length input \<le> n_rows m"
    and "\<forall>tokens \<in> set input. length tokens \<le> n_cols m"
  shows "\<exists>m' d'. EncodeSequences input row (m, d) = Inr (m', d') \<and> wf_Mat m'
           \<and> n_rows m' = n_rows m \<and> n_cols m' = n_cols m"
  using assms
proof (induction input arbitrary: row m d)
  case Nil
  then show ?case by simp
next
  case (Cons tokens input)
  have "row < n_rows m" "0 + length tokens \<le> n_cols m"
    using Cons.prems(2,3) by simp_all
  from EncodeTokens_in_bounds [OF Cons.prems(1) this, of d] obtain m1 d1
    where m1: "EncodeTokens tokens row 0 (m, d) = Inr (m1, d1)" "wf_Mat m1"
      "n_rows m1 = n_rows m" "n_cols m1 = n_cols m"
    by blast
  have "Suc row + length input \<le> n_rows m1" "\<forall>tokens \<in> set input. length tokens \<le> n_cols m1"
    using Cons.prems(2,3) m1(3,4) by simp_all
  from Cons.IH [OF m1(2) this, of d1] show ?case
    using m1 by simp
qed

lemma StringEncoding_Encode_shape:
  "\<exists>output' d'. StringEncoding_Encode d None input output = Inr (output', d')
     \<and> n_rows output' = length input \<and> n_cols output' = max_length input"
proof -
  let ?m = "InitMatrix output (length input) (max_length input) (Size d)"
  have "0 + length input \<le> n_rows ?m" "\<forall>tokens \<in> set input. length tokens \<le> n_cols ?m"
    by (simp_all add: InitMatrix_dims length_le_max_length)
  from EncodeSequences_in_bounds [OF wf_Mat_InitMatrix this, of d] obtain output' d'
    where "EncodeSequences input 0 (?m, d) = Inr (output', d')"
      "n_rows output' = n_rows ?m" "n_cols output' = n_cols ?m"
    by blast
  then show ?thesis
    by (simp add: StringEncoding_Encode_def PolicyTraits_DictionaryEncoding_def InitMatrix_dims)
qed


section \<open>Properties of the encoding\<close>

text \<open>
  C1. For every matrix, every coordinate pair inside the matrix and every index value
  \<open>ele\<close> that the element type of the matrix represents,
  \<^verbatim>\<open>Encode(ele, output, row, col)\<close> returns normally and cell \<open>(row, col)\<close> of the output then
  holds \<open>ele\<close> itself, with no arithmetic transformation applied to it.
\<close>

theorem Encode_elem_stores_representable:
  assumes "wf_Mat output" "row < n_rows output" "col < n_cols output"
    and "representable eT ele"
  shows "\<exists>output'. Encode_elem eT ele output row col = Some output'
           \<and> cell output' row col = Some (of_nat ele)"
  using Encode_cell_same [OF assms(1-3)] Encode_in_bounds [OF assms(1-3)]
  by (simp add: Encode_elem_representable [OF assms(4)])

theorem Encode_elem_stores_representable_witness:
  "wf_Mat \<lparr>n_rows = 2, n_cols = 2, mem = [0, 0, 0, 0 :: real]\<rparr>
   \<and> representable Float64 9007199254740994
   \<and> (\<exists>output'. Encode_elem Float64 9007199254740994
                   \<lparr>n_rows = 2, n_cols = 2, mem = [0, 0, 0, 0 :: real]\<rparr> 1 0 = Some output'
        \<and> cell output' 1 0 = Some 9007199254740994)"
proof -
  have wf: "wf_Mat \<lparr>n_rows = 2, n_cols = 2, mem = [0, 0, 0, 0 :: real]\<rparr>"
    by (simp add: wf_Mat_def)
  have "bits 9007199254740994 = 54"
    by (simp add: bits.simps)
  then have rep: "representable Float64 9007199254740994"
    by simp
  show ?thesis
    using wf rep Encode_elem_stores_representable [OF wf _ _ rep, of 1 0] by simp
qed

text \<open>
  Without the condition on \<open>ele\<close> the statement fails. On a matrix of \<^verbatim>\<open>double\<close> the call
  with \<open>ele = 2 ^ 53 + 1\<close> returns and the cell holds \<open>2 ^ 53\<close>; on a matrix of 8-bit
  unsigned integers the call with \<open>ele = 300\<close> returns and the cell holds 44.
\<close>

theorem Encode_stores_ele_counterexample:
  "Encode_elem Float64 9007199254740993 \<lparr>n_rows = 1, n_cols = 1, mem = [0 :: real]\<rparr> 0 0
     = Some \<lparr>n_rows = 1, n_cols = 1, mem = [9007199254740992]\<rparr>
   \<and> cell \<lparr>n_rows = 1, n_cols = 1, mem = [9007199254740992 :: real]\<rparr> 0 0
       \<noteq> Some (of_nat 9007199254740993)
   \<and> Encode_elem (Unsigned 8) 300 \<lparr>n_rows = 1, n_cols = 1, mem = [0 :: int]\<rparr> 0 0
     = Some \<lparr>n_rows = 1, n_cols = 1, mem = [44]\<rparr>
   \<and> cell \<lparr>n_rows = 1, n_cols = 1, mem = [44 :: int]\<rparr> 0 0 \<noteq> Some (of_nat 300)"
proof -
  have "bits 9007199254740993 = 54"
    by (simp add: bits.simps)
  then have "round_to_nearest_even 53 9007199254740993 = 9007199254740992"
    by (simp add: round_to_nearest_even_def)
  then show ?thesis
    by (simp add: Encode_elem_def at_assign_def cell_def)
qed

text \<open>
  C4. Exactly one of the trait flags \<^verbatim>\<open>isSinglePass\<close> and \<^verbatim>\<open>isMultiPass\<close> of
  \<^verbatim>\<open>PolicyTraits<DictionaryEncoding>\<close> is true: the two flags differ.
\<close>

theorem DictionaryEncoding_one_pass_strategy:
  "isSinglePass PolicyTraits_DictionaryEncoding \<noteq> isMultiPass PolicyTraits_DictionaryEncoding"
  by (simp add: PolicyTraits_DictionaryEncoding_def)

text \<open>
  C5. \<^verbatim>\<open>InitMatrix\<close> ignores its \<^verbatim>\<open>mappingsSize\<close> argument: two runs that differ only in it
  produce the same matrix.
\<close>

theorem InitMatrix_ignores_mappingsSize:
  "InitMatrix output datasetSize colSize mappingsSize
     = InitMatrix output datasetSize colSize mappingsSize'"
  by (simp add: InitMatrix_def)

text \<open>
  C9. The trait \<^verbatim>\<open>PolicyTraits<DictionaryEncoding>::outputWithNoPadding\<close> is true.
\<close>

theorem DictionaryEncoding_outputWithNoPadding:
  "outputWithNoPadding PolicyTraits_DictionaryEncoding = True"
  by (simp add: PolicyTraits_DictionaryEncoding_def)

text \<open>
  C10. \<^verbatim>\<open>Encode\<close> is idempotent and the last write wins: the same call twice in a row leaves
  the matrix as one call does, and a call with \<open>e1\<close> followed by a call with \<open>e2\<close> at the
  same coordinates leaves the matrix as the call with \<open>e2\<close> alone does. Both hold for all
  coordinates: where one call is outside the memory of the matrix, so is the other.
\<close>

theorem Encode_idempotent_last_write_wins:
  "Encode_calls [(ele, row, col), (ele, row, col)] output = Encode ele output row col
   \<and> Encode_calls [(e1, row, col), (e2, row, col)] output = Encode e2 output row col"
  by (simp add: Encode_def at_assign_def Let_def)

text \<open>
  C2. After \<^verbatim>\<open>InitMatrix(output, datasetSize, colSize, mappingsSize)\<close> the matrix has exactly
  \<open>datasetSize\<close> rows and \<open>colSize\<close> columns, owns that many elements, and every entry is 0.
  Hence an encoding of a batch of \<open>R\<close> sequences of maximum length \<open>L\<close>, which is
  \<^verbatim>\<open>InitMatrix\<close> with \<open>datasetSize = R\<close> and \<open>colSize = L\<close> followed by calls of \<^verbatim>\<open>Encode\<close> at
  coordinates inside the matrix, returns and yields an \<open>R \<times> L\<close> matrix. (The driver of
  section 4.4 of the specification is such an encoding, see \<open>StringEncoding_Encode_shape\<close>.)
\<close>

theorem InitMatrix_shape_and_zero:
  "n_rows (InitMatrix output datasetSize colSize mappingsSize) = datasetSize
   \<and> n_cols (InitMatrix output datasetSize colSize mappingsSize) = colSize
   \<and> length (mem (InitMatrix output datasetSize colSize mappingsSize)) = datasetSize * colSize
   \<and> (\<forall>row col. row < datasetSize \<and> col < colSize \<longrightarrow>
         cell (InitMatrix output datasetSize colSize mappingsSize) row col = Some 0)
   \<and> ((\<forall>(ele, row, col) \<in> set calls. row < datasetSize \<and> col < colSize) \<longrightarrow>
        (\<exists>output'. Encode_calls calls (InitMatrix output datasetSize colSize mappingsSize)
                      = Some output'
           \<and> n_rows output' = datasetSize \<and> n_cols output' = colSize))"
proof -
  let ?m = "InitMatrix output datasetSize colSize mappingsSize"
  have "length (mem ?m) = datasetSize * colSize"
    using wf_Mat_InitMatrix [of "output" datasetSize colSize mappingsSize]
    by (simp add: wf_Mat_def InitMatrix_dims)
  moreover have "\<exists>output'. Encode_calls calls ?m = Some output'
                   \<and> n_rows output' = datasetSize \<and> n_cols output' = colSize"
    if "\<forall>(ele, row, col) \<in> set calls. row < datasetSize \<and> col < colSize"
    using Encode_calls_in_bounds [of ?m calls] that
    by (auto simp: wf_Mat_InitMatrix InitMatrix_dims)
  ultimately show ?thesis
    by (simp add: InitMatrix_dims cell_InitMatrix)
qed

theorem InitMatrix_shape_and_zero_witness:
  "n_rows (InitMatrix \<lparr>n_rows = 1, n_cols = 1, mem = [9 :: int]\<rparr> 2 3 0) = 2
   \<and> n_cols (InitMatrix \<lparr>n_rows = 1, n_cols = 1, mem = [9 :: int]\<rparr> 2 3 0) = 3
   \<and> cell (InitMatrix \<lparr>n_rows = 1, n_cols = 1, mem = [9 :: int]\<rparr> 2 3 0) 1 2 = Some 0
   \<and> (\<exists>output'. Encode_calls [(4, 0, 0), (5, 0, 1), (4, 1, 0)]
                   (InitMatrix \<lparr>n_rows = 1, n_cols = 1, mem = [9 :: int]\<rparr> 2 3 0) = Some output'
        \<and> n_rows output' = 2 \<and> n_cols output' = 3)"
  using InitMatrix_shape_and_zero
    [of "\<lparr>n_rows = 1, n_cols = 1, mem = [9 :: int]\<rparr>" 2 3 0 "[(4, 0, 0), (5, 0, 1), (4, 1, 0)]"]
  by simp

text \<open>
  C3. After \<^verbatim>\<open>InitMatrix\<close> on a \<open>datasetSize \<times> colSize\<close> output, let any sequence of \<^verbatim>\<open>Encode\<close>
  calls follow that touches, in each row \<open>r\<close> of the dataset, only the columns below the
  length \<open>len r\<close> of that row's sequence, which is at most \<open>colSize\<close>. Then the calls return
  and every trailing cell \<open>(r, c)\<close> with \<open>len r \<le> c < colSize\<close> still holds the pad value 0.
\<close>

theorem trailing_cells_stay_zero:
  assumes "\<forall>(ele, row, col) \<in> set calls. row < datasetSize \<and> col < len row \<and> len row \<le> colSize"
  shows "\<exists>output'. Encode_calls calls (InitMatrix output datasetSize colSize mappingsSize)
                     = Some output'
           \<and> (\<forall>r c. r < datasetSize \<and> len r \<le> c \<and> c < colSize \<longrightarrow> cell output' r c = Some 0)"
proof -
  let ?m = "InitMatrix output datasetSize colSize mappingsSize"
  have inb: "\<forall>(ele, row, col) \<in> set calls. row < n_rows ?m \<and> col < n_cols ?m"
    using assms by (auto simp: InitMatrix_dims)
  from Encode_calls_in_bounds [OF wf_Mat_InitMatrix inb] obtain output'
    where out: "Encode_calls calls ?m = Some output'"
    by blast
  have "cell output' r c = Some 0" if "r < datasetSize" "len r \<le> c" "c < colSize" for r c
  proof -
    have "\<forall>(ele, row, col) \<in> set calls. row < n_rows ?m \<and> col < n_cols ?m \<and> (row, col) \<noteq> (r, c)"
      using assms that by (auto simp: InitMatrix_dims)
    from Encode_calls_untouched [OF wf_Mat_InitMatrix this out]
    show ?thesis
      using that by (simp add: cell_InitMatrix)
  qed
  with out show ?thesis by blast
qed

theorem trailing_cells_stay_zero_witness:
  "\<exists>output'. Encode_calls [(4, 0, 0), (5, 0, 1), (5, 1, 0)]
                (InitMatrix \<lparr>n_rows = 1, n_cols = 1, mem = [9 :: int]\<rparr> 2 3 0) = Some output'
     \<and> cell output' 0 2 = Some 0 \<and> cell output' 1 1 = Some 0 \<and> cell output' 1 2 = Some 0"
proof -
  let ?len = "\<lambda>r::nat. if r = 0 then 2 else (1::nat)"
  have "\<forall>(ele, row, col) \<in> set [(4, 0, 0), (5, 0, 1), (5::nat, 1::nat, 0::nat)].
          row < 2 \<and> col < ?len row \<and> ?len row \<le> 3"
    by simp
  from trailing_cells_stay_zero [where len = ?len, OF this,
      of "\<lparr>n_rows = 1, n_cols = 1, mem = [9 :: int]\<rparr>" 0]
  show ?thesis by auto
qed

text \<open>
  C8. \<^verbatim>\<open>Encode(ele, output, row, col)\<close> at coordinates inside the matrix returns and modifies
  only the cell \<open>(row, col)\<close>: every other entry and both dimensions are as before the call.
  (The restriction to coordinates inside the matrix is needed: \<^verbatim>\<open>at\<close> checks no bounds, and
  on a \<open>2 \<times> 2\<close> matrix the call with \<open>(row, col) = (2, 0)\<close> writes \<^verbatim>\<open>mem[2]\<close>, which is the
  cell \<open>(0, 1)\<close>.)
\<close>

theorem Encode_modifies_one_cell:
  assumes "wf_Mat output" "row < n_rows output" "col < n_cols output"
  shows "\<exists>output'. Encode ele output row col = Some output'
           \<and> n_rows output' = n_rows output \<and> n_cols output' = n_cols output
           \<and> (\<forall>r c. (r, c) \<noteq> (row, col) \<longrightarrow> cell output' r c = cell output r c)"
proof -
  from Encode_in_bounds [OF assms] obtain output'
    where out: "Encode ele output row col = Some output'"
    by blast
  show ?thesis
    using out Encode_dims [OF out] Encode_cell_other [OF assms out] by blast
qed

theorem Encode_modifies_one_cell_witness:
  "wf_Mat \<lparr>n_rows = 2, n_cols = 2, mem = [1, 2, 3, 4 :: int]\<rparr>
   \<and> (\<exists>output'. Encode 7 \<lparr>n_rows = 2, n_cols = 2, mem = [1, 2, 3, 4 :: int]\<rparr> 1 0 = Some output'
        \<and> n_rows output' = 2 \<and> n_cols output' = 2
        \<and> cell output' 0 0 = Some 1 \<and> cell output' 0 1 = Some 3 \<and> cell output' 1 1 = Some 4)"
proof -
  let ?m = "\<lparr>n_rows = 2, n_cols = 2, mem = [1, 2, 3, 4 :: int]\<rparr>"
  have wf: "wf_Mat ?m"
    by (simp add: wf_Mat_def)
  from Encode_modifies_one_cell [OF wf, of 1 0 7] obtain output'
    where out: "Encode 7 ?m 1 0 = Some output'" "n_rows output' = 2" "n_cols output' = 2"
      and frame: "\<forall>r c. (r, c) \<noteq> (1, 0) \<longrightarrow> cell output' r c = cell ?m r c"
    by auto
  from frame have "cell output' 0 0 = cell ?m 0 0" "cell output' 0 1 = cell ?m 0 1"
    "cell output' 1 1 = cell ?m 1 1"
    by simp_all
  then have "cell output' 0 0 = Some 1" "cell output' 0 1 = Some 3" "cell output' 1 1 = Some 4"
    by (simp_all add: cell_def)
  with wf out show ?thesis by simp
qed

text \<open>
  The claim without the restriction fails: on the zero \<open>2 \<times> 2\<close> matrix the call
  \<^verbatim>\<open>Encode(5, output, 2, 0)\<close> returns and has changed the cell \<open>(0, 1)\<close> from 0 to 5.
\<close>

theorem Encode_modifies_one_cell_counterexample:
  "Encode 5 \<lparr>n_rows = 2, n_cols = 2, mem = [0, 0, 0, 0 :: int]\<rparr> 2 0
     = Some \<lparr>n_rows = 2, n_cols = 2, mem = [0, 0, 5, 0]\<rparr>
   \<and> (0 :: nat, 1 :: nat) \<noteq> (2, 0)
   \<and> cell \<lparr>n_rows = 2, n_cols = 2, mem = [0, 0, 0, 0 :: int]\<rparr> 0 1 = Some 0
   \<and> cell \<lparr>n_rows = 2, n_cols = 2, mem = [0, 0, 5, 0 :: int]\<rparr> 0 1 = Some 5"
  by (simp add: Encode_def at_assign_def cell_def)

text \<open>
  C6. Encoding the input sequences \<open>[[cat, dog], [dog]]\<close> with the dictionary-style policy
  and \<open>colSize = 2\<close>, from the empty dictionary, returns; the dictionary assigns \<open>cat\<close> the
  index 0 and \<open>dog\<close> the index 1, in order of first appearance; the matrix is \<open>2 \<times> 2\<close>, its
  row 0 is \<open>[0, 1]\<close> and its row 1 is \<open>[1, 0]\<close>, the second cell of row 1 being the padding 0.
  The width that the driver computes for this batch is 2 as well.
\<close>

theorem cat_dog_scenario:
  "\<exists>output' d.
     StringEncoding_Encode (Dictionary_empty DictionaryEncoding_base) (Some 2)
         [[''cat'', ''dog''], [''dog'']] output = Inr (output', d)
     \<and> StringEncoding_Encode (Dictionary_empty DictionaryEncoding_base) None
         [[''cat'', ''dog''], [''dog'']] output = Inr (output', d)
     \<and> entries d = [(''cat'', 0), (''dog'', 1)]
     \<and> fst (GetOrAssign d ''cat'') = 0 \<and> fst (GetOrAssign d ''dog'') = 1
     \<and> n_rows output' = 2 \<and> n_cols output' = 2
     \<and> row_of output' 0 = [0, 1] \<and> row_of output' 1 = [1, 0]
     \<and> cell output' 1 1 = Some 0"
  unfolding DictionaryEncoding_base_def cat_dog_result
  by (simp add: GetOrAssign_def row_of_def cell_def numeral_eq_Suc)

text \<open>
  C7. Let an encoding session start from the empty dictionary and call \<^verbatim>\<open>GetOrAssign\<close> on
  the tokens \<open>tokens\<close> in order, and let \<open>indices\<close> be the indices that the calls returned.
  Then at the end of the session \<^verbatim>\<open>TokenAt\<close> returns, for the index assigned to each token,
  that token, and \<^verbatim>\<open>TokenAt\<close> fails with \<^verbatim>\<open>NotFoundError\<close> for every index that was never
  assigned.
\<close>

theorem TokenAt_round_trip:
  assumes "GetOrAssign_seq (Dictionary_empty b) tokens = (indices, d)"
  shows "length indices = length tokens
         \<and> (\<forall>k < length tokens. TokenAt d (indices ! k) = Inr (tokens ! k))
         \<and> (\<forall>index. index \<notin> set indices \<longrightarrow> TokenAt d index = Inl NotFoundError)"
proof -
  from GetOrAssign_seq_props [OF Dictionary_inv_empty assms]
  have inv: "Dictionary_inv d"
    and len: "length indices = length tokens"
    and assigned: "\<forall>k < length tokens. map_of (entries d) (tokens ! k) = Some (indices ! k)"
    and range: "snd ` set (entries d) = set indices"
    by (simp_all add: Dictionary_empty_def)
  have "TokenAt d (indices ! k) = Inr (tokens ! k)" if "k < length tokens" for k
  proof -
    from assigned that have "map_of (entries d) (tokens ! k) = Some (indices ! k)"
      by simp
    then show ?thesis
      by (rule TokenAt_of_index [OF inv])
  qed
  moreover have "TokenAt d index = Inl NotFoundError" if "index \<notin> set indices" for index
  proof -
    from range that show ?thesis
      by (simp add: TokenAt_NotFound)
  qed
  ultimately show ?thesis
    using len by simp
qed

theorem TokenAt_round_trip_witness:
  "GetOrAssign_seq (Dictionary_empty 0) [''cat'', ''dog'', ''dog'']
     = ([0, 1, 1], \<lparr>base = 0, entries = [(''cat'', 0), (''dog'', 1)]\<rparr>)
   \<and> TokenAt \<lparr>base = 0, entries = [(''cat'', 0), (''dog'', 1)]\<rparr> 0 = Inr ''cat''
   \<and> TokenAt \<lparr>base = 0, entries = [(''cat'', 0), (''dog'', 1)]\<rparr> 1 = Inr ''dog''
   \<and> TokenAt \<lparr>base = 0, entries = [(''cat'', 0), (''dog'', 1)]\<rparr> 2 = Inl NotFoundError"
proof -
  let ?d = "\<lparr>base = 0, entries = [(''cat'', 0 :: nat), (''dog'', 1)]\<rparr>"
  have seq: "GetOrAssign_seq (Dictionary_empty 0) [''cat'', ''dog'', ''dog''] = ([0, 1, 1], ?d)"
    by (simp add: Dictionary_empty_def GetOrAssign_def Size_def)
  note rt = TokenAt_round_trip [OF seq]
  from rt have at: "TokenAt ?d ([0, 1, 1] ! k) = Inr ([''cat'', ''dog'', ''dog''] ! k)"
    if "k < 3" for k
    using that by simp
  have "TokenAt ?d ([0, 1, 1] ! 0) = Inr ([''cat'', ''dog'', ''dog''] ! 0)"
    "TokenAt ?d ([0, 1, 1] ! 1) = Inr ([''cat'', ''dog'', ''dog''] ! 1)"
    by (rule at, simp)+
  moreover from rt have "TokenAt ?d 2 = Inl NotFoundError"
    by simp
  ultimately show ?thesis
    using seq by simp
qed

end
